theory Spec2Isabelle
  imports Complex_Main "HOL-Library.Word" "HOL-Library.Log_Nat"
begin

section \<open>Data model of the frame compositing pipeline\<close>

text \<open>
  The pipeline of \<^verbatim>\<open>process_frames.py\<close> works on numpy arrays: an image is an
  \<open>H \<times> W \<times> 4\<close> array of \<^verbatim>\<open>uint8\<close>, a mask an \<open>H \<times> W\<close> array of \<^verbatim>\<open>uint8\<close>, a shading
  map an \<open>H \<times> W\<close> array of \<^verbatim>\<open>float32\<close>. An array is a list of rows here.

  An RGB image is represented by its RGBA promotion (alpha 255), which is what
  \<^verbatim>\<open>img.convert("RGBA")\<close> produces; the functions that receive an image of either
  mode index the channels 0, 1 and 2 only. A \<^verbatim>\<open>float32\<close> value is represented by
  the real number it denotes, and every \<^verbatim>\<open>float32\<close> operation rounds its exact result
  to the nearest \<^verbatim>\<open>float32\<close> value.
\<close>

type_synonym u8 = "8 word"
type_synonym i16 = "16 word"

record pixel =
  red :: u8
  green :: u8
  blue :: u8
  alpha :: u8

type_synonym image = "pixel list list"
type_synonym mask = "u8 list list"
type_synonym shading = "real list list"

text \<open>
  Indexing an array with a boolean array of another shape raises \<^verbatim>\<open>IndexError\<close>
  in numpy; it is the only exception the modelled functions can raise on arrays.
\<close>

datatype error = IndexError

definition shape :: "'a list list \<Rightarrow> nat list" where
  "shape a = map length a"

definition same_shape :: "'a list list \<Rightarrow> 'b list list \<Rightarrow> bool" where
  "same_shape a b = (shape a = shape b)"

text \<open>Elementwise combination of two arrays of one shape.\<close>

definition grid_map2 :: "('a \<Rightarrow> 'b \<Rightarrow> 'c) \<Rightarrow> 'a list list \<Rightarrow> 'b list list \<Rightarrow> 'c list list" where
  "grid_map2 f a b = map2 (map2 f) a b"

text \<open>\<^verbatim>\<open>arr[mask_bool] = f(arr[mask_bool])\<close>: assignment through a boolean index.\<close>

definition assign_where :: "('a \<Rightarrow> 'a) \<Rightarrow> 'a list list \<Rightarrow> bool list list \<Rightarrow> 'a list list" where
  "assign_where f arr mask_bool = grid_map2 (\<lambda>v m. if m then f v else v) arr mask_bool"

text \<open>\<^verbatim>\<open>arr[mask_bool]\<close>: the selected elements, in row-major order.\<close>

definition select_where :: "'a list list \<Rightarrow> bool list list \<Rightarrow> 'a list" where
  "select_where arr mask_bool = concat (map2 (\<lambda>row ms. map fst (filter snd (zip row ms))) arr mask_bool)"

text \<open>\<^verbatim>\<open>np.any\<close> of a boolean array.\<close>

definition np_any :: "bool list list \<Rightarrow> bool" where
  "np_any mask_bool = list_ex (list_ex (\<lambda>m. m)) mask_bool"

text \<open>\<^verbatim>\<open>mask_array > 128\<close>, the membership test every consumer of a mask uses.\<close>

definition mask_gt128 :: "mask \<Rightarrow> bool list list" where
  "mask_gt128 mask_array = map (map (\<lambda>v. 128 < v)) mask_array"

section \<open>Chroma key: \<^verbatim>\<open>remove_green_screen\<close>\<close>

text \<open>\<^verbatim>\<open>.astype(np.int16)\<close> of a \<^verbatim>\<open>uint8\<close> channel: zero extension to 16 bits.\<close>

definition astype_int16 :: "u8 \<Rightarrow> i16" where
  "astype_int16 v = ucast v"

text \<open>
  The two tests of the source, on \<^verbatim>\<open>int16\<close> values: \<open>+\<close> is the wrapping addition of
  16-bit words and \<open><s\<close> the signed comparison. The threshold is a Python integer.
\<close>

definition green_aggressive :: "pixel \<Rightarrow> bool" where
  "green_aggressive p =
     (let r = astype_int16 (red p); g = astype_int16 (green p); b = astype_int16 (blue p)
      in 100 < sint g \<and> r <s g \<and> b <s g)"

definition green_standard :: "int \<Rightarrow> pixel \<Rightarrow> bool" where
  "green_standard threshold p =
     (let r = astype_int16 (red p); g = astype_int16 (green p); b = astype_int16 (blue p)
      in threshold < sint g \<and> r + 30 <s g \<and> b + 30 <s g \<and> r <s 100)"

definition green_mask :: "image \<Rightarrow> int \<Rightarrow> bool \<Rightarrow> bool list list" where
  "green_mask img_array threshold aggressive =
     map (map (\<lambda>p. if aggressive then green_aggressive p else green_standard threshold p)) img_array"

definition remove_green_screen :: "image \<Rightarrow> int \<Rightarrow> bool \<Rightarrow> image" where
  "remove_green_screen img threshold aggressive =
     assign_where (\<lambda>p. p\<lparr>alpha := 0\<rparr>) img (green_mask img threshold aggressive)"

text \<open>The same test written on the unbounded integer values of the channels.\<close>

definition is_background_standard :: "pixel \<Rightarrow> bool" where
  "is_background_standard p =
     (uint (green p) > 100 \<and> uint (green p) > uint (red p) + 30 \<and>
      uint (green p) > uint (blue p) + 30 \<and> uint (red p) < 100)"

definition is_background_aggressive :: "pixel \<Rightarrow> bool" where
  "is_background_aggressive p =
     (uint (green p) > 100 \<and> uint (green p) > uint (red p) \<and> uint (green p) > uint (blue p))"

section \<open>Masks: \<^verbatim>\<open>dilate_mask\<close>, \<^verbatim>\<open>extract_black_lines\<close>, \<^verbatim>\<open>create_yellow_mask\<close>\<close>

text \<open>\<^verbatim>\<open>result.shape[1]\<close>: the width of an array, the length of its rows.\<close>

definition width :: "'a list list \<Rightarrow> nat" where
  "width a = (case a of [] \<Rightarrow> 0 | row # _ \<Rightarrow> length row)"

text \<open>
  \<^verbatim>\<open>result[y - 1 : y + 2, x - 1 : x + 2]\<close>. The loops call it with \<open>1 \<le> y\<close> and
  \<open>1 \<le> x\<close> only, so the lower bounds of the slices are never negative.
\<close>

definition neighborhood :: "mask \<Rightarrow> nat \<Rightarrow> nat \<Rightarrow> mask" where
  "neighborhood result y x = map (\<lambda>row. take 3 (drop (x - 1) row)) (take 3 (drop (y - 1) result))"

definition any_gt4 :: "mask \<Rightarrow> bool" where
  "any_gt4 nb = list_ex (list_ex (\<lambda>v. 4 < v)) nb"

text \<open>\<^verbatim>\<open>dilated[y, x] = v\<close>.\<close>

definition set2d :: "'a list list \<Rightarrow> nat \<Rightarrow> nat \<Rightarrow> 'a \<Rightarrow> 'a list list" where
  "set2d a y x v = a[y := (a ! y)[x := v]]"

text \<open>
  One pass of the outer loop: \<open>dilated\<close> starts as a copy of \<open>result\<close>, the two inner
  loops visit the interior cells in row-major order, read \<open>result\<close> and write \<open>dilated\<close>.
\<close>

definition dilate_cell :: "mask \<Rightarrow> nat \<Rightarrow> mask \<Rightarrow> nat \<Rightarrow> mask" where
  "dilate_cell result y dilated x =
     (if any_gt4 (neighborhood result y x) then set2d dilated y x 255 else dilated)"

definition dilate_row :: "mask \<Rightarrow> nat \<Rightarrow> mask \<Rightarrow> nat \<Rightarrow> mask" where
  "dilate_row result w dilated y = fold (\<lambda>x d. dilate_cell result y d x) [1..<w - 1] dilated"

definition dilate_pass :: "mask \<Rightarrow> mask" where
  "dilate_pass result =
     (let h = length result; w = width result
      in fold (\<lambda>y d. dilate_row result w d y) [1..<h - 1] result)"

text \<open>\<^verbatim>\<open>for _ in range(iterations)\<close>: no pass when \<open>iterations \<le> 0\<close>.\<close>

definition dilate_mask :: "mask \<Rightarrow> int \<Rightarrow> mask" where
  "dilate_mask mask_array iterations = (dilate_pass ^^ nat iterations) mask_array"

definition is_black :: "pixel \<Rightarrow> bool" where
  "is_black p = (red p < 140 \<and> green p < 140 \<and> blue p < 140)"

definition extract_black_lines :: "image \<Rightarrow> mask" where
  "extract_black_lines img_array = map (map (\<lambda>p. if is_black p then 255 else 0)) img_array"

definition is_yellow :: "pixel \<Rightarrow> bool" where
  "is_yellow p =
     (180 < red p \<and> 120 < green p \<and> blue p < 150 \<and> blue p < red p \<and> blue p < green p)"

definition create_yellow_mask :: "image \<Rightarrow> mask" where
  "create_yellow_mask img_array =
     dilate_mask (map (map (\<lambda>p. if is_yellow p then 255 else 0)) img_array) 4"

text \<open>The member pixels of a mask, for a membership threshold \<open>t\<close>.\<close>

definition members :: "u8 \<Rightarrow> mask \<Rightarrow> (nat \<times> nat) set" where
  "members t m = {(y, x). y < length m \<and> x < length (m ! y) \<and> t < m ! y ! x}"

section \<open>\<^verbatim>\<open>float32\<close> arithmetic\<close>

text \<open>
  numpy computes the luminance, the shading map and the shaded texture in
  \<^verbatim>\<open>float32\<close>: a Python float constant that meets a \<^verbatim>\<open>float32\<close> array is converted
  to \<^verbatim>\<open>float32\<close>, and each operation returns the exact result rounded to the nearest
  representable value, ties to the even significand (IEEE 754 binary32: 24 bits of
  significand, least normal exponent -126, subnormals below). Overflow to infinity
  and NaN are not modelled: the pipeline's values stay below 65536 and it never
  divides by zero (the normalisation divides only when \<open>max > min\<close>).
\<close>

definition pow2 :: "int \<Rightarrow> real" where
  "pow2 e = (if 0 \<le> e then 2 ^ nat e else 1 / 2 ^ nat (- e))"

text \<open>The binary exponent of \<open>x > 0\<close>: the \<open>e\<close> with \<open>2 ^ e \<le> x < 2 ^ (e + 1)\<close>.\<close>

definition exponent :: "real \<Rightarrow> int" where
  "exponent x =
     (if 1 \<le> x then bitlen \<lfloor>x\<rfloor> - 1
      else let k = bitlen \<lfloor>1 / x\<rfloor> - 1 in if x = pow2 (- k) then - k else - k - 1)"

definition round_half_even :: "real \<Rightarrow> int" where
  "round_half_even v =
     (let q = \<lfloor>v\<rfloor>; d = v - of_int q
      in if d < 1 / 2 then q else if 1 / 2 < d then q + 1 else if even q then q else q + 1)"

definition round_f32 :: "real \<Rightarrow> real" where
  "round_f32 x =
     (if x = 0 then 0
      else let ulp = pow2 (max (exponent \<bar>x\<bar>) (- 126) - 23)
           in of_int (round_half_even (x / ulp)) * ulp)"

text \<open>A Python float constant as a \<^verbatim>\<open>float32\<close>, and the four operations on \<^verbatim>\<open>float32\<close>.\<close>

definition f32 :: "real \<Rightarrow> real" where
  "f32 c = round_f32 c"

definition fadd :: "real \<Rightarrow> real \<Rightarrow> real" where
  "fadd a b = round_f32 (a + b)"

definition fsub :: "real \<Rightarrow> real \<Rightarrow> real" where
  "fsub a b = round_f32 (a - b)"

definition fmul :: "real \<Rightarrow> real \<Rightarrow> real" where
  "fmul a b = round_f32 (a * b)"

definition fdiv :: "real \<Rightarrow> real \<Rightarrow> real" where
  "fdiv a b = round_f32 (a / b)"

text \<open>\<^verbatim>\<open>.astype(np.float32)\<close> of a \<^verbatim>\<open>uint8\<close> channel is exact.\<close>

definition astype_float32 :: "u8 \<Rightarrow> real" where
  "astype_float32 v = real (unat v)"

section \<open>Shading: \<^verbatim>\<open>extract_shading_map\<close>, \<^verbatim>\<open>convert_shading_to_uint8\<close>\<close>

text \<open>\<^verbatim>\<open>0.299 * r + 0.587 * g + 0.114 * b\<close> on \<^verbatim>\<open>float32\<close> channels, evaluated left to right.\<close>

definition luminance :: "pixel \<Rightarrow> real" where
  "luminance p =
     fadd (fadd (fmul (f32 0.299) (astype_float32 (red p)))
                (fmul (f32 0.587) (astype_float32 (green p))))
          (fmul (f32 0.114) (astype_float32 (blue p)))"

text \<open>\<^verbatim>\<open>np.clip(x, lo, hi)\<close> is \<^verbatim>\<open>minimum(maximum(x, lo), hi)\<close>.\<close>

definition np_clip :: "'a::linorder \<Rightarrow> 'a \<Rightarrow> 'a \<Rightarrow> 'a" where
  "np_clip v lo hi = min (max v lo) hi"

text \<open>
  When no mask value exceeds 128 the function returns before it indexes anything.
  Otherwise \<^verbatim>\<open>luminance[mask_bool]\<close> raises unless the shapes agree. The map starts
  as zeros and is assigned twice through the mask (normalise, then clip), or once
  (the constant 1.0) when the masked luminances are all equal. The bounds of
  \<^verbatim>\<open>np.clip\<close> are the \<^verbatim>\<open>float32\<close> values of 0.4 and 1.0.
\<close>

definition extract_shading_map :: "image \<Rightarrow> mask \<Rightarrow> error + shading" where
  "extract_shading_map base_array mask_array =
     (let lum = map (map luminance) base_array;
          mask_bool = mask_gt128 mask_array
      in if np_any mask_bool then
           if \<not> same_shape lum mask_bool then Inl IndexError
           else
             let max_luminance = Max (set (select_where lum mask_bool));
                 min_luminance = Min (set (select_where lum mask_bool));
                 shading_map = map (map (\<lambda>_. 0)) lum
             in if max_luminance > min_luminance then
                  let normalised =
                        grid_map2 (\<lambda>(s, l) m. if m then fdiv (fsub l min_luminance) (fsub max_luminance min_luminance) else s)
                          (grid_map2 Pair shading_map lum) mask_bool
                  in Inr (assign_where (\<lambda>s. np_clip s (f32 0.4) 1.0) normalised mask_bool)
                else Inr (assign_where (\<lambda>_. 1.0) shading_map mask_bool)
         else Inr (map (map (\<lambda>_. 1)) lum))"

text \<open>
  \<^verbatim>\<open>.astype(np.uint8)\<close> of a float: truncation towards zero. For a value outside
  \<open>[0, 256)\<close> the C cast is platform-dependent; the model wraps modulo 256 there,
  and no theorem below depends on it.
\<close>

definition astype_uint8 :: "real \<Rightarrow> u8" where
  "astype_uint8 v = word_of_int (if 0 \<le> v then \<lfloor>v\<rfloor> else \<lceil>v\<rceil>)"

definition shading_byte :: "real \<Rightarrow> u8" where
  "shading_byte v = np_clip (astype_uint8 (fmul (fdiv (fsub v (f32 0.4)) (f32 0.6)) 255)) 102 255"

definition convert_shading_to_uint8 :: "shading \<Rightarrow> mask" where
  "convert_shading_to_uint8 shading_array = map (map shading_byte) shading_array"

text \<open>
  The mapping the docstring of \<^verbatim>\<open>convert_shading_to_uint8\<close> documents: the line
  through \<open>(0.4, 102)\<close> and \<open>(1.0, 255)\<close>.
\<close>

definition linear_102_255 :: "real \<Rightarrow> real" where
  "linear_102_255 v = 102 + (v - 0.4) / (1.0 - 0.4) * (255 - 102)"

section \<open>Compositing: \<^verbatim>\<open>apply_texture_to_mask\<close>, \<^verbatim>\<open>overlay_black_lines\<close>, \<^verbatim>\<open>process_frame\<close>\<close>

text \<open>PIL's \<^verbatim>\<open>size\<close> is (width, height).\<close>

definition size_of :: "'a list list \<Rightarrow> nat \<times> nat" where
  "size_of img = (width img, length img)"

text \<open>
  \<^verbatim>\<open>(texture * shading).astype(np.uint8)\<close> on the three colour channels: the product of
  a \<^verbatim>\<open>uint8\<close> and a \<^verbatim>\<open>float32\<close> array is a \<^verbatim>\<open>float32\<close> array. Alpha is kept.
\<close>

definition shade_pixel :: "pixel \<Rightarrow> pixel \<Rightarrow> real \<Rightarrow> pixel" where
  "shade_pixel p t s =
     p\<lparr>red := astype_uint8 (fmul (astype_float32 (red t)) s),
       green := astype_uint8 (fmul (astype_float32 (green t)) s),
       blue := astype_uint8 (fmul (astype_float32 (blue t)) s)\<rparr>"

text \<open>
  The Lanczos resampling of PIL is a parameter \<open>resize\<close>. The three indexings with
  \<^verbatim>\<open>mask_bool\<close> (of the texture, of the shading map, of the result) raise unless the
  shapes agree.
\<close>

definition apply_texture_to_mask ::
  "(image \<Rightarrow> nat \<times> nat \<Rightarrow> image) \<Rightarrow> image \<Rightarrow> image \<Rightarrow> mask \<Rightarrow> image option \<Rightarrow> error + image" where
  "apply_texture_to_mask resize base_array texture_img mask_array original_img =
     (let texture_array =
            (if size_of texture_img \<noteq> size_of base_array
             then resize texture_img (size_of base_array) else texture_img);
          source_for_shading = (case original_img of Some img \<Rightarrow> img | None \<Rightarrow> base_array)
      in case extract_shading_map source_for_shading mask_array of
           Inl e \<Rightarrow> Inl e
         | Inr shading_map \<Rightarrow>
             let mask_bool = mask_gt128 mask_array
             in if \<not> same_shape texture_array mask_bool \<or> \<not> same_shape shading_map mask_bool
                   \<or> \<not> same_shape base_array mask_bool
                then Inl IndexError
                else Inr (grid_map2 (\<lambda>(p, t) (s, m). if m then shade_pixel p t s else p)
                            (grid_map2 Pair base_array texture_array)
                            (grid_map2 Pair shading_map mask_bool)))"

definition overlay_black_lines :: "image \<Rightarrow> mask \<Rightarrow> error + image" where
  "overlay_black_lines base_array line_mask_array =
     (let line_pixels = mask_gt128 line_mask_array
      in if \<not> same_shape base_array line_pixels then Inl IndexError
         else Inr (assign_where (\<lambda>p. p\<lparr>red := 0, green := 0, blue := 0\<rparr>) base_array line_pixels))"

text \<open>
  \<^verbatim>\<open>process_frame\<close> up to the image it resizes and saves. The frame is the loaded
  image; the texture is \<open>None\<close> when no path is given or no file exists at the path.
  Reading and writing files are not modelled.
\<close>

definition process_frame_composite ::
  "(image \<Rightarrow> nat \<times> nat \<Rightarrow> image) \<Rightarrow> image \<Rightarrow> image option \<Rightarrow> error + image" where
  "process_frame_composite resize frame texture =
     (let mask_array = create_yellow_mask frame;
          line_mask = extract_black_lines frame;
          frame_no_green = remove_green_screen frame 100 False;
          textured =
            (case texture of
               Some t \<Rightarrow>
                 (case apply_texture_to_mask resize frame_no_green t mask_array (Some frame) of
                    Inl e \<Rightarrow> Inl e
                  | Inr result \<Rightarrow> Inr (remove_green_screen result 100 True))
             | None \<Rightarrow> Inr frame_no_green)
      in case textured of
           Inl e \<Rightarrow> Inl e
         | Inr result \<Rightarrow> overlay_black_lines result line_mask)"

definition process_frame ::
  "(image \<Rightarrow> nat \<times> nat \<Rightarrow> image) \<Rightarrow> image \<Rightarrow> image option \<Rightarrow> error + image" where
  "process_frame resize frame texture =
     (case process_frame_composite resize frame texture of
        Inl e \<Rightarrow> Inl e
      | Inr result \<Rightarrow> Inr (resize result (128, 128)))"

text \<open>The colour channels of a pixel.\<close>

definition rgb :: "pixel \<Rightarrow> u8 \<times> u8 \<times> u8" where
  "rgb p = (red p, green p, blue p)"

text \<open>Pointwise order on masks of one shape.\<close>

definition grid_le :: "mask \<Rightarrow> mask \<Rightarrow> bool" where
  "grid_le a b = (shape a = shape b \<and> (\<forall>y<length a. \<forall>x<length (a ! y). a ! y ! x \<le> b ! y ! x))"

text \<open>The luminances of the pixels whose mask value exceeds 128.\<close>

definition masked_luminances :: "image \<Rightarrow> mask \<Rightarrow> real set" where
  "masked_luminances base_array mask_array =
     {luminance (base_array ! y ! x) | y x.
        y < length mask_array \<and> x < length (mask_array ! y) \<and> 128 < mask_array ! y ! x}"

text \<open>
  A 3 by 3 example frame: a fill-coloured pixel in a corner, a near-black pixel in
  the centre, background colour elsewhere; and a resampler that returns its input.
\<close>

definition example_frame :: image where
  "example_frame =
     [[\<lparr>red = 230, green = 170, blue = 50, alpha = 255\<rparr>,
       \<lparr>red = 22, green = 187, blue = 0, alpha = 255\<rparr>,
       \<lparr>red = 22, green = 187, blue = 0, alpha = 255\<rparr>],
      [\<lparr>red = 22, green = 187, blue = 0, alpha = 255\<rparr>,
       \<lparr>red = 10, green = 10, blue = 10, alpha = 255\<rparr>,
       \<lparr>red = 22, green = 187, blue = 0, alpha = 255\<rparr>],
      [\<lparr>red = 22, green = 187, blue = 0, alpha = 255\<rparr>,
       \<lparr>red = 22, green = 187, blue = 0, alpha = 255\<rparr>,
       \<lparr>red = 22, green = 187, blue = 0, alpha = 255\<rparr>]]"

definition keep_size :: "image \<Rightarrow> nat \<times> nat \<Rightarrow> image" where
  "keep_size img s = img"

section \<open>Arrays: indexing lemmas\<close>

lemma length_grid_map2:
  "length (grid_map2 f a b) = min (length a) (length b)"
  by (simp add: grid_map2_def)

lemma grid_map2_same:
  "grid_map2 f a (map (map g) a) = map (map (\<lambda>v. f v (g v))) a"
proof -
  have row: "map2 f r (map g r) = map (\<lambda>v. f v (g v)) r" for r
    by (induction r) simp_all
  show ?thesis
    unfolding grid_map2_def by (induction a) (simp_all add: row)
qed

lemma assign_where_same:
  "assign_where f a (map (map c) a) = map (map (\<lambda>v. if c v then f v else v)) a"
  by (simp add: assign_where_def grid_map2_same)

lemma same_shapeD:
  assumes "same_shape a b"
  shows "length a = length b" and "y < length a \<Longrightarrow> length (a ! y) = length (b ! y)"
proof -
  from assms have eq: "map length a = map length b"
    by (simp add: same_shape_def shape_def)
  then show len: "length a = length b"
    by (rule map_eq_imp_length_eq)
  assume "y < length a"
  with len have "map length a ! y = length (a ! y)" "map length b ! y = length (b ! y)"
    by simp_all
  with eq show "length (a ! y) = length (b ! y)"
    by simp
qed

lemma same_shape_refl: "same_shape a a"
  by (simp add: same_shape_def)

lemma same_shape_sym: "same_shape a b \<Longrightarrow> same_shape b a"
  by (simp add: same_shape_def)

lemma same_shape_trans: "same_shape a b \<Longrightarrow> same_shape b c \<Longrightarrow> same_shape a c"
  by (simp add: same_shape_def)

lemma shape_map_map: "shape (map (map f) a) = shape a"
  by (simp add: shape_def comp_def)

lemma same_shape_map_left: "same_shape (map (map f) a) b = same_shape a b"
  by (simp add: same_shape_def shape_map_map)

lemma same_shape_map_right: "same_shape a (map (map f) b) = same_shape a b"
  by (simp add: same_shape_def shape_map_map)

lemma shape_grid_map2:
  assumes "same_shape a b"
  shows "shape (grid_map2 f a b) = shape a"
proof (rule nth_equalityI)
  from assms have len: "length a = length b"
    by (rule same_shapeD)
  then show "length (shape (grid_map2 f a b)) = length (shape a)"
    by (simp add: shape_def grid_map2_def)
  fix y
  assume "y < length (shape (grid_map2 f a b))"
  with len have y: "y < length a" "y < length b"
    by (simp_all add: shape_def grid_map2_def)
  with assms have "length (a ! y) = length (b ! y)"
    by (simp add: same_shapeD)
  with y show "shape (grid_map2 f a b) ! y = shape a ! y"
    by (simp add: shape_def grid_map2_def)
qed

lemma nth_grid_map2:
  assumes "y < length a" "y < length b" "x < length (a ! y)" "x < length (b ! y)"
  shows "grid_map2 f a b ! y ! x = f (a ! y ! x) (b ! y ! x)"
  using assms by (simp add: grid_map2_def)

lemma nth_map_map:
  "y < length a \<Longrightarrow> x < length (a ! y) \<Longrightarrow> map (map f) a ! y ! x = f (a ! y ! x)"
  by simp

section \<open>Chroma key: properties\<close>

lemma uint_u8_bound: "uint (v::u8) < 256"
  using uint_bounded [of v] by simp

lemma sint_astype_int16: "sint (astype_int16 v) = uint v"
proof -
  have "uint (ucast v :: i16) = uint v"
    by (simp add: uint_up_ucast is_up)
  moreover have "signed_take_bit 15 (uint v) = uint v"
  proof (rule signed_take_bit_int_eq_self)
    have "- (2 ^ 15) \<le> (0::int)" by simp
    then show "- (2 ^ 15) \<le> uint v" by (rule order_trans) simp
    have "(256::int) \<le> 2 ^ 15" by simp
    with uint_u8_bound show "uint v < 2 ^ 15" by (rule less_le_trans)
  qed
  ultimately show ?thesis
    unfolding astype_int16_def by (simp add: sint_uint)
qed

lemma sint_astype_int16_plus30: "sint (astype_int16 v + 30) = uint v + 30"
proof -
  have "signed_take_bit 15 (uint v + 30) = uint v + 30"
    using uint_u8_bound [of v] by (simp add: signed_take_bit_int_eq_self)
  then show ?thesis
    by (simp add: sint_word_add sint_astype_int16)
qed

lemma green_standard_exact:
  "green_standard threshold p =
     (threshold < uint (green p) \<and> uint (red p) + 30 < uint (green p) \<and>
      uint (blue p) + 30 < uint (green p) \<and> uint (red p) < 100)"
  by (simp add: green_standard_def Let_def word_sless_alt sint_astype_int16
      sint_astype_int16_plus30)

lemma green_standard_100: "green_standard 100 p = is_background_standard p"
  by (auto simp add: green_standard_exact is_background_standard_def)

lemma green_aggressive_exact: "green_aggressive p = is_background_aggressive p"
  by (auto simp add: green_aggressive_def is_background_aggressive_def Let_def word_sless_alt
      sint_astype_int16)

lemma remove_green_screen_map:
  "remove_green_screen img threshold aggressive =
     map (map (\<lambda>p. if (if aggressive then green_aggressive p else green_standard threshold p)
                    then p\<lparr>alpha := 0\<rparr> else p)) img"
  by (simp add: remove_green_screen_def green_mask_def assign_where_same)

lemma shape_remove_green_screen: "shape (remove_green_screen img threshold aggressive) = shape img"
  by (simp add: remove_green_screen_map shape_map_map)

text \<open>
  C3. In standard mode with the default threshold 100, the pixel at every position of
  the result is the input pixel with alpha set to 0 when
  green > 100, green > red + 30, green > blue + 30 and red < 100 all hold, and the
  input pixel itself otherwise; the colour channels are the input's in both cases, and
  a pixel of colour (22, 187, 0) always gets alpha 0. The result has the input's shape.
\<close>

theorem remove_green_screen_standard:
  assumes "y < length img" and "x < length (img ! y)"
  shows "shape (remove_green_screen img 100 False) = shape img
    \<and> remove_green_screen img 100 False ! y ! x =
        (if is_background_standard (img ! y ! x) then (img ! y ! x)\<lparr>alpha := 0\<rparr> else img ! y ! x)
    \<and> (alpha (remove_green_screen img 100 False ! y ! x) = 0) =
        (is_background_standard (img ! y ! x) \<or> alpha (img ! y ! x) = 0)
    \<and> rgb (remove_green_screen img 100 False ! y ! x) = rgb (img ! y ! x)
    \<and> (rgb (img ! y ! x) = (22, 187, 0) \<longrightarrow> alpha (remove_green_screen img 100 False ! y ! x) = 0)"
proof -
  have px: "remove_green_screen img 100 False ! y ! x =
      (if is_background_standard (img ! y ! x) then (img ! y ! x)\<lparr>alpha := 0\<rparr> else img ! y ! x)"
    using assms by (simp add: remove_green_screen_map green_standard_100)
  have bg: "is_background_standard p" if "rgb p = (22, 187, 0)" for p
    using that by (simp add: rgb_def is_background_standard_def)
  show ?thesis
    using bg [of "img ! y ! x"]
    by (simp add: px shape_remove_green_screen rgb_def)
qed

theorem remove_green_screen_standard_witness:
  "(0::nat) < length [[\<lparr>red = 22, green = 187, blue = 0, alpha = 255\<rparr>,
                       \<lparr>red = 230, green = 170, blue = 50, alpha = 255\<rparr>]]
   \<and> (0::nat) < length ([[\<lparr>red = 22, green = 187, blue = 0, alpha = 255\<rparr>,
                          \<lparr>red = 230, green = 170, blue = 50, alpha = 255\<rparr>]] ! 0)
   \<and> is_background_standard \<lparr>red = 22, green = 187, blue = 0, alpha = 255\<rparr>
   \<and> remove_green_screen [[\<lparr>red = 22, green = 187, blue = 0, alpha = 255\<rparr>,
                           \<lparr>red = 230, green = 170, blue = 50, alpha = 255\<rparr>]] 100 False ! 0 ! 0
       = \<lparr>red = 22, green = 187, blue = 0, alpha = 0\<rparr>"
  using remove_green_screen_standard
    [of 0 "[[\<lparr>red = 22, green = 187, blue = 0, alpha = 255\<rparr>,
             \<lparr>red = 230, green = 170, blue = 50, alpha = 255\<rparr>]]" 0]
  by (simp add: is_background_standard_def)

text \<open>
  C8. With the default threshold 100, every pixel the standard test classifies as
  background is classified as background by the aggressive test too.
\<close>

theorem standard_implies_aggressive:
  "green_standard 100 p \<Longrightarrow> green_aggressive p"
  by (simp add: green_standard_exact green_aggressive_exact is_background_aggressive_def)

theorem standard_implies_aggressive_witness:
  "green_standard 100 \<lparr>red = 22, green = 187, blue = 0, alpha = 255\<rparr>
   \<and> green_aggressive \<lparr>red = 22, green = 187, blue = 0, alpha = 255\<rparr>"
proof -
  have std: "green_standard 100 \<lparr>red = 22, green = 187, blue = 0, alpha = 255\<rparr>"
    by (simp add: green_standard_exact)
  with standard_implies_aggressive [OF std] show ?thesis
    by simp
qed

text \<open>
  Without the widening, \<^verbatim>\<open>r + 30\<close> on \<^verbatim>\<open>uint8\<close> would wrap for \<open>r \<ge> 226\<close>, as in
  \<^verbatim>\<open>debug_green_condition.py\<close>.
\<close>

lemma uint8_sum_wraps: "(230 :: u8) + 30 = 4"
  by simp

text \<open>
  C10. After the widening to 16-bit signed integers the comparisons of
  \<^verbatim>\<open>remove_green_screen\<close> are the comparisons of the integer values of the channels:
  \<open>red + 30\<close> and \<open>blue + 30\<close> never wrap, for any channel values, and the standard test
  as a whole is the integer test.
\<close>

theorem green_comparisons_exact:
  "(astype_int16 r + 30 <s astype_int16 g) = (uint r + 30 < uint g)
   \<and> sint (astype_int16 r + 30) = uint r + 30
   \<and> green_standard threshold p =
       (threshold < uint (green p) \<and> uint (red p) + 30 < uint (green p) \<and>
        uint (blue p) + 30 < uint (green p) \<and> uint (red p) < 100)"
proof -
  have "(astype_int16 r + 30 <s astype_int16 g) = (uint r + 30 < uint g)"
    by (simp add: word_sless_alt sint_astype_int16 sint_astype_int16_plus30)
  then show ?thesis
    by (simp add: sint_astype_int16_plus30 green_standard_exact [symmetric])
qed

section \<open>Dilation: properties\<close>

lemma grid_le_refl: "grid_le a a"
  by (simp add: grid_le_def)

lemma grid_le_trans:
  assumes "grid_le a b" "grid_le b c"
  shows "grid_le a c"
proof -
  from assms have ab: "same_shape a b" and bc: "same_shape b c"
    by (simp_all add: grid_le_def same_shape_def)
  have "a ! y ! x \<le> c ! y ! x" if "y < length a" "x < length (a ! y)" for y x
  proof -
    from that ab have "y < length b" "x < length (b ! y)"
      by (simp_all add: same_shapeD [symmetric])
    with assms that have "a ! y ! x \<le> b ! y ! x" "b ! y ! x \<le> c ! y ! x"
      by (simp_all add: grid_le_def)
    then show ?thesis by (rule order_trans)
  qed
  with assms show ?thesis
    by (simp add: grid_le_def)
qed

lemma shape_set2d: "shape (set2d a y x v) = shape a"
proof (cases "y < length a")
  case True
  then have "(map length a)[y := length (a ! y)] = map length a"
    by (simp add: list_update_same_conv)
  then show ?thesis
    by (simp add: set2d_def shape_def map_update)
next
  case False
  then have "a[y := (a ! y)[x := v]] = a"
    by (simp add: list_update_beyond)
  then show ?thesis
    by (simp add: set2d_def)
qed

lemma u8_le_255: "(v::u8) \<le> 255"
proof -
  have "(255::u8) = - 1" by simp
  then show ?thesis by (simp only: word_n1_ge)
qed

lemma grid_le_set2d: "grid_le a (set2d a y x 255)"
proof -
  have "a ! i ! j \<le> set2d a y x 255 ! i ! j" if "i < length a" "j < length (a ! i)" for i j
  proof (cases "i = y")
    case True
    with that show ?thesis
      by (cases "j = x") (simp_all add: set2d_def u8_le_255)
  next
    case False
    then show ?thesis
      by (simp add: set2d_def)
  qed
  then show ?thesis
    by (simp add: grid_le_def shape_set2d)
qed

lemma grid_le_fold:
  assumes "\<And>i d. grid_le d (f i d)"
  shows "grid_le d (fold f is d)"
proof (induction "is" arbitrary: d)
  case Nil
  show ?case by (simp add: grid_le_refl)
next
  case (Cons i "is")
  have "grid_le d (f i d)" by (rule assms)
  moreover have "grid_le (f i d) (fold f is (f i d))" by (rule Cons.IH)
  ultimately show ?case
    by (simp add: grid_le_trans)
qed

lemma grid_le_dilate_cell: "grid_le d (dilate_cell result y d x)"
  by (simp add: dilate_cell_def grid_le_refl grid_le_set2d)

lemma grid_le_dilate_row: "grid_le d (dilate_row result w d y)"
  unfolding dilate_row_def by (rule grid_le_fold) (rule grid_le_dilate_cell)

lemma grid_le_dilate_pass: "grid_le result (dilate_pass result)"
  unfolding dilate_pass_def Let_def by (rule grid_le_fold) (rule grid_le_dilate_row)

lemma members_mono:
  assumes "grid_le a b"
  shows "members t a \<subseteq> members t b"
proof
  fix c
  assume "c \<in> members t a"
  then obtain y x where c: "c = (y, x)" and y: "y < length a" and x: "x < length (a ! y)"
    and t: "t < a ! y ! x"
    by (auto simp add: members_def)
  from assms have "same_shape a b"
    by (simp add: grid_le_def same_shape_def)
  with y x have "y < length b" "x < length (b ! y)"
    by (simp_all add: same_shapeD [symmetric])
  moreover from assms y x have "a ! y ! x \<le> b ! y ! x"
    by (simp add: grid_le_def)
  with t have "t < b ! y ! x"
    by (rule less_le_trans)
  ultimately show "c \<in> members t b"
    by (simp add: members_def c)
qed

text \<open>
  C6. For every mask, every membership threshold (in particular 4, the one the
  dilation reads, and 128, the one the consumers of a mask read) and every iteration
  count \<open>k\<close>, the member pixels after \<open>k\<close> iterations are member pixels after \<open>k + 1\<close>
  iterations. A negative count runs no iteration, like 0.
\<close>

theorem dilate_mask_monotone:
  "members t (dilate_mask m k) \<subseteq> members t (dilate_mask m (k + 1))"
proof (cases "0 \<le> k")
  case True
  then have "nat (k + 1) = Suc (nat k)"
    by simp
  then have "dilate_mask m (k + 1) = dilate_pass (dilate_mask m k)"
    by (simp add: dilate_mask_def)
  then show ?thesis
    by (simp add: members_mono grid_le_dilate_pass)
next
  case False
  then show ?thesis
    by (simp add: dilate_mask_def)
qed

section \<open>Outline overlay: properties\<close>

lemma map2_idem:
  assumes "\<And>v m. g (g v m) m = g v m"
  shows "map2 g (map2 g r ms) ms = map2 g r ms"
proof (induction r arbitrary: ms)
  case Nil
  show ?case by simp
next
  case (Cons v r)
  then show ?case
    by (cases ms) (simp_all add: assms)
qed

lemma grid_map2_idem:
  assumes "\<And>v m. g (g v m) m = g v m"
  shows "grid_map2 g (grid_map2 g a b) b = grid_map2 g a b"
  unfolding grid_map2_def
  by (rule map2_idem) (rule map2_idem, rule assms)

lemma nth_mask_gt128:
  "y < length m \<Longrightarrow> x < length (m ! y) \<Longrightarrow> mask_gt128 m ! y ! x = (128 < m ! y ! x)"
  by (simp add: mask_gt128_def)

lemma same_shape_mask_gt128: "same_shape a (mask_gt128 m) = same_shape a m"
  by (simp add: mask_gt128_def same_shape_map_right)

lemma nth_assign_where:
  assumes "same_shape a b" "y < length a" "x < length (a ! y)"
  shows "assign_where f a b ! y ! x = (if b ! y ! x then f (a ! y ! x) else a ! y ! x)"
proof -
  from assms have "y < length b" "x < length (b ! y)"
    by (simp_all add: same_shapeD [symmetric])
  with assms show ?thesis
    by (simp add: assign_where_def nth_grid_map2)
qed

lemma shape_assign_where: "same_shape a b \<Longrightarrow> shape (assign_where f a b) = shape a"
  by (simp add: assign_where_def shape_grid_map2)

lemma overlay_black_lines_eq:
  "overlay_black_lines img m =
     (if same_shape img m
      then Inr (assign_where (\<lambda>p. p\<lparr>red := 0, green := 0, blue := 0\<rparr>) img (mask_gt128 m))
      else Inl IndexError)"
  by (simp add: overlay_black_lines_def same_shape_mask_gt128)

text \<open>
  C9. Applying \<^verbatim>\<open>overlay_black_lines\<close> to its own result with the same mask gives
  that result again (and raises the same error when the first application raises).
  When image and mask have one shape it returns an image of that shape in which
  every pixel keeps its alpha, every pixel with mask value above 128 has the colour
  (0, 0, 0), and every other pixel is the input pixel.
\<close>

theorem overlay_black_lines_idempotent:
  "(case overlay_black_lines img m of Inl e \<Rightarrow> Inl e | Inr out \<Rightarrow> overlay_black_lines out m)
     = overlay_black_lines img m
   \<and> (same_shape img m \<longrightarrow>
        (\<exists>out. overlay_black_lines img m = Inr out \<and> shape out = shape img
           \<and> (\<forall>y<length img. \<forall>x<length (img ! y).
                 alpha (out ! y ! x) = alpha (img ! y ! x)
                 \<and> (128 < m ! y ! x \<longrightarrow> rgb (out ! y ! x) = (0, 0, 0))
                 \<and> (m ! y ! x \<le> 128 \<longrightarrow> out ! y ! x = img ! y ! x))))"
proof (cases "same_shape img m")
  case False
  then show ?thesis
    by (simp add: overlay_black_lines_eq)
next
  case True
  define black :: "pixel \<Rightarrow> pixel" where "black = (\<lambda>p. p\<lparr>red := 0, green := 0, blue := 0\<rparr>)"
  define out where "out = assign_where black img (mask_gt128 m)"
  have res: "overlay_black_lines img m = Inr out"
    using True by (simp add: overlay_black_lines_eq out_def black_def)
  from True have sm: "same_shape img (mask_gt128 m)"
    by (simp add: same_shape_mask_gt128)
  then have sh: "shape out = shape img"
    by (simp add: out_def shape_assign_where)
  with True have so: "same_shape out m"
    by (simp add: same_shape_def)
  have "assign_where black out (mask_gt128 m) = out"
    unfolding out_def assign_where_def by (rule grid_map2_idem) (simp add: black_def)
  with so have twice: "overlay_black_lines out m = Inr out"
    by (simp add: overlay_black_lines_eq black_def)
  have px: "alpha (out ! y ! x) = alpha (img ! y ! x)
      \<and> (128 < m ! y ! x \<longrightarrow> rgb (out ! y ! x) = (0, 0, 0))
      \<and> (m ! y ! x \<le> 128 \<longrightarrow> out ! y ! x = img ! y ! x)"
    if "y < length img" "x < length (img ! y)" for y x
  proof -
    from True that have "y < length m" "x < length (m ! y)"
      by (simp_all add: same_shapeD [symmetric])
    then have "mask_gt128 m ! y ! x = (128 < m ! y ! x)"
      by (rule nth_mask_gt128)
    with sm that have "out ! y ! x = (if 128 < m ! y ! x then black (img ! y ! x) else img ! y ! x)"
      by (simp add: out_def nth_assign_where)
    then show ?thesis
      by (auto simp add: black_def rgb_def)
  qed
  from res twice sh px show ?thesis
    by simp
qed

theorem overlay_black_lines_idempotent_witness:
  "same_shape [[\<lparr>red = 10, green = 10, blue = 10, alpha = 7\<rparr>,
                \<lparr>red = 230, green = 170, blue = 50, alpha = 255\<rparr>]] [[255, 0 :: u8]]
   \<and> overlay_black_lines [[\<lparr>red = 10, green = 10, blue = 10, alpha = 7\<rparr>,
                            \<lparr>red = 230, green = 170, blue = 50, alpha = 255\<rparr>]] [[255, 0]]
       = Inr [[\<lparr>red = 0, green = 0, blue = 0, alpha = 7\<rparr>,
               \<lparr>red = 230, green = 170, blue = 50, alpha = 255\<rparr>]]
   \<and> overlay_black_lines [[\<lparr>red = 0, green = 0, blue = 0, alpha = 7\<rparr>,
                            \<lparr>red = 230, green = 170, blue = 50, alpha = 255\<rparr>]] [[255, 0]]
       = Inr [[\<lparr>red = 0, green = 0, blue = 0, alpha = 7\<rparr>,
               \<lparr>red = 230, green = 170, blue = 50, alpha = 255\<rparr>]]"
  using overlay_black_lines_idempotent
    [where img = "[[\<lparr>red = 10, green = 10, blue = 10, alpha = 7\<rparr>,
                    \<lparr>red = 230, green = 170, blue = 50, alpha = 255\<rparr>]]"
       and m = "[[255, 0]]"]
  by (simp add: overlay_black_lines_eq same_shape_def shape_def assign_where_def grid_map2_def
      mask_gt128_def)

section \<open>Shading: properties\<close>

lemma nth_grid_map2_same_shape:
  assumes "same_shape a b" "y < length a" "x < length (a ! y)"
  shows "grid_map2 f a b ! y ! x = f (a ! y ! x) (b ! y ! x)"
proof -
  from assms have "y < length b" "x < length (b ! y)"
    by (simp_all add: same_shapeD [symmetric])
  with assms show ?thesis
    by (simp add: nth_grid_map2)
qed

lemma same_shape_grid_map2_left:
  "same_shape a b \<Longrightarrow> same_shape (grid_map2 f a b) c = same_shape a c"
  by (simp add: same_shape_def shape_grid_map2)

lemma set_select_row:
  "set (map fst (filter snd (zip row ms))) = {row ! x | x. x < length row \<and> x < length ms \<and> ms ! x}"
  by (auto simp add: set_zip image_iff) force

lemma set_select_where:
  assumes "same_shape a b"
  shows "set (select_where a b) = {a ! y ! x | y x. y < length a \<and> x < length (a ! y) \<and> b ! y ! x}"
    (is "?L = ?R")
proof (rule set_eqI)
  fix v
  from assms have len: "length a = length b"
    by (rule same_shapeD)
  have rows: "length (a ! y) = length (b ! y)" if "y < length a" for y
    using assms that by (rule same_shapeD)
  have "v \<in> ?L \<longleftrightarrow> (\<exists>y<length a. v \<in> set (map fst (filter snd (zip (a ! y) (b ! y)))))"
    unfolding select_where_def using len
    by (auto simp add: set_zip in_set_conv_nth) 
  also have "\<dots> \<longleftrightarrow> (\<exists>y<length a. \<exists>x. x < length (a ! y) \<and> x < length (b ! y) \<and> b ! y ! x \<and> v = a ! y ! x)"
    unfolding set_select_row by blast
  also have "\<dots> \<longleftrightarrow> v \<in> ?R"
  proof
    assume "\<exists>y<length a. \<exists>x. x < length (a ! y) \<and> x < length (b ! y) \<and> b ! y ! x \<and> v = a ! y ! x"
    then show "v \<in> ?R" by blast
  next
    assume "v \<in> ?R"
    then obtain y x where yx: "y < length a" "x < length (a ! y)" "b ! y ! x" "v = a ! y ! x"
      by blast
    with rows [of y] have "x < length (b ! y)" by simp
    with yx show "\<exists>y<length a. \<exists>x. x < length (a ! y) \<and> x < length (b ! y) \<and> b ! y ! x \<and> v = a ! y ! x"
      by blast
  qed
  finally show "v \<in> ?L \<longleftrightarrow> v \<in> ?R" .
qed

lemma np_any_mask_gt128:
  "np_any (mask_gt128 m) = (\<exists>y<length m. \<exists>x<length (m ! y). 128 < m ! y ! x)"
proof -
  have "np_any (mask_gt128 m) = (\<exists>row\<in>set m. \<exists>v\<in>set row. 128 < v)"
    by (simp add: np_any_def mask_gt128_def list_ex_iff)
  also have "\<dots> = (\<exists>y<length m. \<exists>x<length (m ! y). 128 < m ! y ! x)"
    unfolding Bex_def in_set_conv_nth by blast
  finally show ?thesis .
qed

lemma masked_luminances_select:
  assumes "same_shape base m"
  shows "set (select_where (map (map luminance) base) (mask_gt128 m)) = masked_luminances base m"
proof -
  have s: "same_shape (map (map luminance) base) (mask_gt128 m)"
    using assms by (simp add: same_shape_map_left same_shape_mask_gt128)
  from assms have len: "length base = length m"
    by (rule same_shapeD)
  have rows: "length (base ! y) = length (m ! y)" if "y < length base" for y
    using assms that by (rule same_shapeD)
  have "(y < length (map (map luminance) base) \<and> x < length (map (map luminance) base ! y)
          \<and> mask_gt128 m ! y ! x \<and> v = map (map luminance) base ! y ! x)
      = (y < length m \<and> x < length (m ! y) \<and> 128 < m ! y ! x \<and> v = luminance (base ! y ! x))"
    for y x v
  proof (cases "y < length base")
    case False
    with len show ?thesis by simp
  next
    case y: True
    show ?thesis
    proof (cases "x < length (base ! y)")
      case False
      with y len rows [OF y] show ?thesis by simp
    next
      case True
      with y len rows [OF y] show ?thesis
        by (simp add: nth_mask_gt128)
    qed
  qed
  then have "{map (map luminance) base ! y ! x | y x.
        y < length (map (map luminance) base) \<and> x < length (map (map luminance) base ! y)
          \<and> mask_gt128 m ! y ! x}
      = {luminance (base ! y ! x) | y x. y < length m \<and> x < length (m ! y) \<and> 128 < m ! y ! x}"
    by (intro Collect_cong) (metis (no_types))
  then show ?thesis
    unfolding set_select_where [OF s] masked_luminances_def .
qed

lemma in_range_same_shape:
  assumes "same_shape a b" "y < length a" "x < length (a ! y)"
  shows "y < length b" and "x < length (b ! y)"
  using assms by (simp_all add: same_shapeD [symmetric])

lemma same_shape_grid_map2_self: "same_shape a b \<Longrightarrow> same_shape (grid_map2 f a b) a"
  by (simp add: same_shape_def shape_grid_map2)

lemma extract_shading_map_empty:
  "\<not> np_any (mask_gt128 m) \<Longrightarrow>
     extract_shading_map base m = Inr (map (map (\<lambda>_. 1)) (map (map luminance) base))"
  by (simp add: extract_shading_map_def)

lemma extract_shading_map_mismatch:
  "np_any (mask_gt128 m) \<Longrightarrow> \<not> same_shape base m \<Longrightarrow> extract_shading_map base m = Inl IndexError"
  by (simp add: extract_shading_map_def same_shape_map_left same_shape_mask_gt128)

lemma extract_shading_map_any_eq:
  assumes "np_any (mask_gt128 m)" "same_shape base m"
  shows "extract_shading_map base m =
     Inr (if Min (masked_luminances base m) < Max (masked_luminances base m)
          then assign_where (\<lambda>s. np_clip s (f32 0.4) 1.0)
                 (grid_map2 (\<lambda>(s, l) b. if b then fdiv (fsub l (Min (masked_luminances base m)))
                       (fsub (Max (masked_luminances base m)) (Min (masked_luminances base m))) else s)
                    (grid_map2 Pair (map (map (\<lambda>_. 0)) (map (map luminance) base)) (map (map luminance) base))
                    (mask_gt128 m))
                 (mask_gt128 m)
          else assign_where (\<lambda>_. 1.0) (map (map (\<lambda>_. 0)) (map (map luminance) base)) (mask_gt128 m))"
proof -
  have s: "same_shape (map (map luminance) base) (mask_gt128 m)"
    using assms(2) by (simp add: same_shape_map_left same_shape_mask_gt128)
  show ?thesis
    unfolding extract_shading_map_def Let_def masked_luminances_select [OF assms(2)]
    using assms(1) s by simp
qed

lemma nth_grid_map2_nested:
  assumes ab: "same_shape a b" and ac: "same_shape a c" and y: "y < length a" and x: "x < length (a ! y)"
  shows "grid_map2 f (grid_map2 g a b) c ! y ! x = f (g (a ! y ! x) (b ! y ! x)) (c ! y ! x)"
proof -
  have ga: "same_shape (grid_map2 g a b) a"
    using ab by (rule same_shape_grid_map2_self)
  then have "same_shape a (grid_map2 g a b)"
    by (rule same_shape_sym)
  from in_range_same_shape [OF this y x]
  have gy: "y < length (grid_map2 g a b)" and gx: "x < length (grid_map2 g a b ! y)" .
  from ga ac have "same_shape (grid_map2 g a b) c"
    by (rule same_shape_trans)
  from nth_grid_map2_same_shape [OF this gy gx]
  have "grid_map2 f (grid_map2 g a b) c ! y ! x = f (grid_map2 g a b ! y ! x) (c ! y ! x)" .
  also have "grid_map2 g a b ! y ! x = g (a ! y ! x) (b ! y ! x)"
    using ab y x by (rule nth_grid_map2_same_shape)
  finally show ?thesis .
qed

lemma extract_shading_map_nth:
  assumes any: "np_any (mask_gt128 m)" and ss: "same_shape base m"
    and y: "y < length base" and x: "x < length (base ! y)"
  shows "\<exists>sh. extract_shading_map base m = Inr sh \<and> shape sh = shape base
    \<and> sh ! y ! x =
        (if 128 < m ! y ! x
         then if Min (masked_luminances base m) < Max (masked_luminances base m)
              then np_clip (fdiv (fsub (luminance (base ! y ! x)) (Min (masked_luminances base m)))
                     (fsub (Max (masked_luminances base m)) (Min (masked_luminances base m)))) (f32 0.4) 1.0
              else 1
         else 0)"
proof -
  define lum where "lum = map (map luminance) base"
  define zeros :: shading where "zeros = map (map (\<lambda>_. 0)) lum"
  define mb where "mb = mask_gt128 m"
  define mn where "mn = Min (masked_luminances base m)"
  define mx where "mx = Max (masked_luminances base m)"
  define norm where "norm = grid_map2 (\<lambda>(s, l) b. if b then fdiv (fsub l mn) (fsub mx mn) else s)
      (grid_map2 Pair zeros lum) mb"
  have s_lum: "same_shape lum base" and s_zeros: "same_shape zeros base"
    by (simp_all add: lum_def zeros_def same_shape_map_left same_shape_refl)
  from ss have s_mb: "same_shape base mb"
    by (simp add: mb_def same_shape_mask_gt128)
  have zl: "same_shape zeros lum" and zm: "same_shape zeros mb"
    using s_zeros s_lum s_mb by (simp_all add: same_shape_def)
  have yz: "y < length zeros" and xz: "x < length (zeros ! y)"
    using y x by (simp_all add: zeros_def lum_def)
  from in_range_same_shape [OF ss y x] have mbyx: "mb ! y ! x = (128 < m ! y ! x)"
    unfolding mb_def by (rule nth_mask_gt128)
  have zyx: "zeros ! y ! x = 0" and lyx: "lum ! y ! x = luminance (base ! y ! x)"
    using y x by (simp_all add: zeros_def lum_def)
  have pz: "same_shape (grid_map2 Pair zeros lum) zeros"
    using zl by (rule same_shape_grid_map2_self)
  from pz zm have pm: "same_shape (grid_map2 Pair zeros lum) mb"
    by (rule same_shape_trans)
  then have nz: "same_shape norm zeros"
    unfolding norm_def using pz by (simp add: same_shape_def shape_grid_map2)
  from nz zm have nm: "same_shape norm mb"
    by (rule same_shape_trans)
  from in_range_same_shape [OF same_shape_sym [OF nz] yz xz]
  have yn: "y < length norm" and xn: "x < length (norm ! y)" .
  have nyx: "norm ! y ! x =
      (if 128 < m ! y ! x then fdiv (fsub (luminance (base ! y ! x)) mn) (fsub mx mn) else 0)"
    unfolding norm_def nth_grid_map2_nested [OF zl zm yz xz]
    by (simp add: zyx lyx mbyx)
  have eq: "extract_shading_map base m =
      Inr (if mn < mx then assign_where (\<lambda>s. np_clip s (f32 0.4) 1.0) norm mb
           else assign_where (\<lambda>_. 1.0) zeros mb)"
    unfolding norm_def mn_def mx_def zeros_def lum_def mb_def
    using any ss by (rule extract_shading_map_any_eq)
  show ?thesis
  proof (cases "mn < mx")
    case True
    have "shape (assign_where (\<lambda>s. np_clip s (f32 0.4) 1.0) norm mb) = shape base"
      using nm nz s_zeros by (simp add: shape_assign_where same_shape_def)
    moreover have "assign_where (\<lambda>s. np_clip s (f32 0.4) 1.0) norm mb ! y ! x =
        (if 128 < m ! y ! x then np_clip (fdiv (fsub (luminance (base ! y ! x)) mn) (fsub mx mn)) (f32 0.4) 1.0 else 0)"
      unfolding nth_assign_where [OF nm yn xn] by (simp add: nyx mbyx)
    ultimately show ?thesis
      using True eq by (simp add: mn_def mx_def)
  next
    case False
    have "shape (assign_where (\<lambda>_. 1.0) zeros mb) = shape base"
      using zm s_zeros by (simp add: shape_assign_where same_shape_def)
    moreover have "assign_where (\<lambda>_. 1.0) zeros mb ! y ! x = (if 128 < m ! y ! x then 1 else 0)"
      unfolding nth_assign_where [OF zm yz xz] by (simp add: zyx mbyx)
    ultimately show ?thesis
      using False eq by (simp add: mn_def mx_def)
  qed
qed



text \<open>
  Rounding at work: representable values are kept, 0.1 goes to the nearest
  \<^verbatim>\<open>float32\<close>, and above \<open>2 ^ 24\<close> odd integers go to the even neighbour of their tie.
\<close>

lemma round_f32_examples:
  "round_f32 0.75 = 0.75 \<and> round_f32 255 = 255 \<and> round_f32 0.1 = 13421773 / 134217728
   \<and> round_f32 16777217 = 16777216 \<and> round_f32 16777219 = 16777220
   \<and> round_f32 (- 0.4) = - (13421773 / 33554432)"
  by code_simp

text \<open>The \<^verbatim>\<open>float32\<close> value of 0.4 is 13421773 / 33554432, just above 0.4.\<close>

lemma f32_04: "f32 0.4 = 13421773 / 33554432"
  by code_simp

lemma np_clip_f32_range: "0.4 \<le> np_clip v (f32 0.4) 1.0 \<and> np_clip v (f32 0.4) 1.0 \<le> 1"
  unfolding f32_04 by (auto simp add: np_clip_def min_def max_def)




text \<open>
  The colours (241, 121, 33) and (181, 157, 5) have the same exact luminance 146.848 and
  different \<^verbatim>\<open>float32\<close> luminances, so the normalising branch is taken.
\<close>

lemma extract_shading_map_rounded_luminances:
  "luminance \<lparr>red = 241, green = 121, blue = 33, alpha = 255\<rparr> = 4811915 / 32768
   \<and> luminance \<lparr>red = 181, green = 157, blue = 5, alpha = 255\<rparr> = 9623831 / 65536
   \<and> extract_shading_map [[\<lparr>red = 241, green = 121, blue = 33, alpha = 255\<rparr>,
                            \<lparr>red = 181, green = 157, blue = 5, alpha = 255\<rparr>]] [[255, 255]]
       = Inr [[13421773 / 33554432, 1]]"
  by code_simp

text \<open>
  What the shading map holds in general, for a source and a mask of one shape: a value
  in \<open>[0.4, 1.0]\<close> at a masked pixel; at an unmasked pixel 0 when the mask has a member
  and 1 when it has none.
\<close>

lemma extract_shading_map_values:
  assumes ss: "same_shape base m" and y: "y < length base" and x: "x < length (base ! y)"
    and sh: "extract_shading_map base m = Inr sh"
  shows "(128 < m ! y ! x \<longrightarrow> 0.4 \<le> sh ! y ! x \<and> sh ! y ! x \<le> 1)
    \<and> (m ! y ! x \<le> 128 \<longrightarrow> sh ! y ! x = (if np_any (mask_gt128 m) then 0 else 1))"
proof (cases "np_any (mask_gt128 m)")
  case False
  from in_range_same_shape [OF ss y x] have "\<not> 128 < m ! y ! x"
    using False unfolding np_any_mask_gt128 by blast
  moreover from False sh have "sh = map (map (\<lambda>_. 1)) (map (map luminance) base)"
    by (simp add: extract_shading_map_empty)
  with y x have "sh ! y ! x = 1"
    by simp
  ultimately show ?thesis
    using False by simp
next
  case True
  from extract_shading_map_nth [OF True ss y x] sh
  have v: "sh ! y ! x =
        (if 128 < m ! y ! x
         then if Min (masked_luminances base m) < Max (masked_luminances base m)
              then np_clip (fdiv (fsub (luminance (base ! y ! x)) (Min (masked_luminances base m)))
                     (fsub (Max (masked_luminances base m)) (Min (masked_luminances base m)))) (f32 0.4) 1.0
              else 1
         else 0)"
    by auto
  from v True np_clip_f32_range show ?thesis
    by (auto simp add: not_less [symmetric])
qed

text \<open>
  C1. On a frame of one row and two pixels whose mask marks the first pixel only,
  the shading map is 1.0 at the masked pixel and 0.0, not 1.0, at the unmasked one:
  the map starts as \<^verbatim>\<open>np.zeros_like(luminance)\<close> and only masked entries are assigned.
\<close>

theorem extract_shading_map_unmasked_zero:
  "extract_shading_map [[\<lparr>red = 230, green = 170, blue = 50, alpha = 255\<rparr>,
                         \<lparr>red = 22, green = 187, blue = 0, alpha = 255\<rparr>]] [[255, 0]]
     = Inr [[1, 0]]"
  by code_simp

text \<open>The stored byte is always in the range 102 to 255.\<close>

lemma shading_byte_range: "102 \<le> shading_byte v \<and> shading_byte v \<le> 255"
  by (simp add: shading_byte_def np_clip_def)

text \<open>
  C2. At the shading value 0.75 \<^verbatim>\<open>convert_shading_to_uint8\<close> stores the byte 148,
  while the line through (0.4, 102) and (1.0, 255) gives 191.25: the function maps
  0.4 to 0 and 1.0 to 255 and then clips below at 102.
\<close>

theorem convert_shading_not_linear:
  "convert_shading_to_uint8 [[0.75]] = [[148]] \<and> linear_102_255 0.75 = 191.25"
proof -
  have "convert_shading_to_uint8 [[0.75]] = [[148]]"
    by code_simp
  moreover have "linear_102_255 0.75 = 191.25"
    by (simp add: linear_102_255_def)
  ultimately show ?thesis
    by (rule conjI)
qed

text \<open>At the shading value 0.8 the rounded quotient falls just below 170.\<close>

lemma shading_byte_08: "shading_byte (f32 0.8) = 169"
  by code_simp

section \<open>Texture compositing: properties\<close>

lemma shape_extract_shading_map:
  assumes "extract_shading_map base m = Inr sh"
  shows "shape sh = shape base"
proof (cases "np_any (mask_gt128 m)")
  case False
  with assms show ?thesis
    by (auto simp add: extract_shading_map_empty shape_map_map)
next
  case True
  show ?thesis
  proof (cases "same_shape base m")
    case False
    with True assms show ?thesis
      by (simp add: extract_shading_map_mismatch)
  next
    case ss: True
    define lum where "lum = map (map luminance) base"
    define zeros :: shading where "zeros = map (map (\<lambda>_. 0)) lum"
    define mb where "mb = mask_gt128 m"
    have zb: "shape zeros = shape base" and lb: "shape lum = shape base"
      by (simp_all add: zeros_def lum_def shape_map_map)
    from ss have bm: "shape mb = shape base"
      by (simp add: mb_def same_shape_mask_gt128 [symmetric] same_shape_def)
    have zl: "same_shape zeros lum" and zm: "same_shape zeros mb"
      using zb lb bm by (simp_all add: same_shape_def)
    have p: "shape (grid_map2 Pair zeros lum) = shape base"
      using zl zb by (simp add: shape_grid_map2)
    have n: "shape (grid_map2 f (grid_map2 Pair zeros lum) mb) = shape base" for f
      using p bm by (simp add: shape_grid_map2 same_shape_def)
    have a1: "shape (assign_where g (grid_map2 f (grid_map2 Pair zeros lum) mb) mb) = shape base" for f g
      using n [of f] bm by (simp add: shape_assign_where same_shape_def)
    have a2: "shape (assign_where g zeros mb) = shape base" for g
      using zm zb by (simp add: shape_assign_where)
    from assms show ?thesis
      unfolding extract_shading_map_any_eq [OF True ss]
      using a1 a2 by (auto simp add: zeros_def lum_def mb_def split: if_splits)
  qed
qed

lemma extract_shading_map_returns:
  assumes "same_shape base m"
  shows "\<exists>sh. extract_shading_map base m = Inr sh"
proof (cases "np_any (mask_gt128 m)")
  case False
  then show ?thesis
    by (simp add: extract_shading_map_empty)
next
  case True
  then show ?thesis
    using assms by (simp add: extract_shading_map_any_eq)
qed

lemma alpha_shade_pixel: "alpha (shade_pixel p t s) = alpha p"
  by (simp add: shade_pixel_def)

lemma apply_texture_to_mask_InrD:
  assumes "apply_texture_to_mask resize base tex m orig = Inr out"
  shows "\<exists>sh. extract_shading_map (case orig of Some img \<Rightarrow> img | None \<Rightarrow> base) m = Inr sh
    \<and> same_shape (if size_of tex \<noteq> size_of base then resize tex (size_of base) else tex) m
    \<and> same_shape sh m \<and> same_shape base m
    \<and> out = grid_map2 (\<lambda>(p, t) (s, b). if b then shade_pixel p t s else p)
              (grid_map2 Pair base (if size_of tex \<noteq> size_of base then resize tex (size_of base) else tex))
              (grid_map2 Pair sh (mask_gt128 m))"
  using assms unfolding apply_texture_to_mask_def Let_def same_shape_mask_gt128
  by (auto split: sum.splits if_splits)

lemma apply_texture_to_mask_nth:
  assumes bt: "same_shape base tex" and bs: "same_shape base sh" and bm: "same_shape base m"
    and y: "y < length base" and x: "x < length (base ! y)"
  shows "grid_map2 (\<lambda>(p, t) (s, b). if b then shade_pixel p t s else p)
           (grid_map2 Pair base tex) (grid_map2 Pair sh (mask_gt128 m)) ! y ! x
         = (if 128 < m ! y ! x then shade_pixel (base ! y ! x) (tex ! y ! x) (sh ! y ! x)
            else base ! y ! x)"
proof -
  define mb where "mb = mask_gt128 m"
  from bm have bmb: "same_shape base mb"
    by (simp add: mb_def same_shape_mask_gt128)
  from bs bmb have smb: "same_shape sh mb"
    by (simp add: same_shape_def)
  from in_range_same_shape [OF bs y x] have ys: "y < length sh" and xs: "x < length (sh ! y)" .
  have q: "same_shape (grid_map2 Pair sh mb) sh"
    using smb by (rule same_shape_grid_map2_self)
  with bs have bq: "same_shape base (grid_map2 Pair sh mb)"
    by (simp add: same_shape_def)
  have "grid_map2 (\<lambda>(p, t) (s, b). if b then shade_pixel p t s else p)
           (grid_map2 Pair base tex) (grid_map2 Pair sh mb) ! y ! x
      = (\<lambda>(p, t) (s, b). if b then shade_pixel p t s else p) (base ! y ! x, tex ! y ! x)
          (grid_map2 Pair sh mb ! y ! x)"
    using bt bq y x by (rule nth_grid_map2_nested)
  also have "grid_map2 Pair sh mb ! y ! x = (sh ! y ! x, mb ! y ! x)"
    using smb ys xs by (rule nth_grid_map2_same_shape)
  also from in_range_same_shape [OF bm y x] have "mb ! y ! x = (128 < m ! y ! x)"
    unfolding mb_def by (rule nth_mask_gt128)
  finally show ?thesis
    by (simp add: mb_def)
qed

text \<open>
  C4. Whenever \<^verbatim>\<open>apply_texture_to_mask\<close> returns an image, the image has the shape of
  the base image, every pixel has the alpha of the base pixel, and every pixel whose
  mask value is at most 128 is the base pixel, whatever the texture, the shading
  source and the resampling are. It returns an image when the base image, the
  shading source and the (resized) texture all have the shape of the mask.
\<close>

theorem apply_texture_to_mask_preserves:
  "(same_shape base m \<and> same_shape (case orig of Some img \<Rightarrow> img | None \<Rightarrow> base) m
      \<and> same_shape (if size_of tex \<noteq> size_of base then resize tex (size_of base) else tex) m
     \<longrightarrow> (\<exists>out. apply_texture_to_mask resize base tex m orig = Inr out))
   \<and> (\<forall>out. apply_texture_to_mask resize base tex m orig = Inr out \<longrightarrow>
        shape out = shape base
        \<and> (\<forall>y<length base. \<forall>x<length (base ! y).
              alpha (out ! y ! x) = alpha (base ! y ! x)
              \<and> (m ! y ! x \<le> 128 \<longrightarrow> out ! y ! x = base ! y ! x)))"
proof (intro conjI impI allI)
  define src where "src = (case orig of Some img \<Rightarrow> img | None \<Rightarrow> base)"
  define tex' where "tex' = (if size_of tex \<noteq> size_of base then resize tex (size_of base) else tex)"
  assume "same_shape base m \<and> same_shape (case orig of Some img \<Rightarrow> img | None \<Rightarrow> base) m
      \<and> same_shape (if size_of tex \<noteq> size_of base then resize tex (size_of base) else tex) m"
  then have bm: "same_shape base m" and sm: "same_shape src m" and tm: "same_shape tex' m"
    by (simp_all add: src_def tex'_def)
  from sm obtain sh where sh: "extract_shading_map src m = Inr sh"
    using extract_shading_map_returns by blast
  then have "shape sh = shape src"
    by (rule shape_extract_shading_map)
  with sm have "same_shape sh m"
    by (simp add: same_shape_def)
  with bm tm sh show "\<exists>out. apply_texture_to_mask resize base tex m orig = Inr out"
    unfolding apply_texture_to_mask_def Let_def same_shape_mask_gt128 src_def tex'_def
    by simp
next
  fix out
  assume "apply_texture_to_mask resize base tex m orig = Inr out"
  from apply_texture_to_mask_InrD [OF this] obtain sh tex' where
    tm: "same_shape tex' m" and sm: "same_shape sh m" and bm: "same_shape base m"
    and out: "out = grid_map2 (\<lambda>(p, t) (s, b). if b then shade_pixel p t s else p)
              (grid_map2 Pair base tex') (grid_map2 Pair sh (mask_gt128 m))"
    by blast
  from bm tm sm have bt: "same_shape base tex'" and bs: "same_shape base sh"
    by (simp_all add: same_shape_def)
  from sm have "same_shape sh (mask_gt128 m)"
    by (simp add: same_shape_mask_gt128)
  then have "shape (grid_map2 Pair sh (mask_gt128 m)) = shape sh"
    by (rule shape_grid_map2)
  with bs have bq: "same_shape base (grid_map2 Pair sh (mask_gt128 m))"
    by (simp add: same_shape_def)
  have bp: "same_shape (grid_map2 Pair base tex') base"
    using bt by (rule same_shape_grid_map2_self)
  with bq have "same_shape (grid_map2 Pair base tex') (grid_map2 Pair sh (mask_gt128 m))"
    by (simp add: same_shape_def)
  then have "shape out = shape (grid_map2 Pair base tex')"
    unfolding out by (rule shape_grid_map2)
  with bp show shape: "shape out = shape base"
    by (simp add: same_shape_def)
  fix y x
  assume "y < length base" and "x < length (base ! y)"
  with bt bs bm have px: "out ! y ! x =
      (if 128 < m ! y ! x then shade_pixel (base ! y ! x) (tex' ! y ! x) (sh ! y ! x)
       else base ! y ! x)"
    unfolding out by (rule apply_texture_to_mask_nth)
  then show "alpha (out ! y ! x) = alpha (base ! y ! x)"
    by (simp add: alpha_shade_pixel)
  assume "m ! y ! x \<le> 128"
  then have "\<not> 128 < m ! y ! x"
    by simp
  with px show "out ! y ! x = base ! y ! x"
    by simp
qed

theorem apply_texture_to_mask_preserves_witness:
  "same_shape [[\<lparr>red = 230, green = 170, blue = 50, alpha = 9\<rparr>,
                \<lparr>red = 22, green = 187, blue = 0, alpha = 0\<rparr>]] [[255, 0 :: u8]]
   \<and> apply_texture_to_mask (\<lambda>img s. img)
        [[\<lparr>red = 230, green = 170, blue = 50, alpha = 9\<rparr>,
          \<lparr>red = 22, green = 187, blue = 0, alpha = 0\<rparr>]]
        [[\<lparr>red = 255, green = 0, blue = 0, alpha = 255\<rparr>,
          \<lparr>red = 255, green = 0, blue = 0, alpha = 255\<rparr>]]
        [[255, 0]] None
       = Inr [[\<lparr>red = 255, green = 0, blue = 0, alpha = 9\<rparr>,
               \<lparr>red = 22, green = 187, blue = 0, alpha = 0\<rparr>]]"
proof -
  have ss: "same_shape [[\<lparr>red = 230, green = 170, blue = 50, alpha = 9\<rparr>,
                \<lparr>red = 22, green = 187, blue = 0, alpha = 0\<rparr>]] [[255, 0 :: u8]]"
    by (simp add: same_shape_def shape_def)
  have val: "apply_texture_to_mask (\<lambda>img s. img)
        [[\<lparr>red = 230, green = 170, blue = 50, alpha = 9\<rparr>,
          \<lparr>red = 22, green = 187, blue = 0, alpha = 0\<rparr>]]
        [[\<lparr>red = 255, green = 0, blue = 0, alpha = 255\<rparr>,
          \<lparr>red = 255, green = 0, blue = 0, alpha = 255\<rparr>]]
        [[255, 0]] None
       = Inr [[\<lparr>red = 255, green = 0, blue = 0, alpha = 9\<rparr>,
               \<lparr>red = 22, green = 187, blue = 0, alpha = 0\<rparr>]]"
    by code_simp
  from apply_texture_to_mask_preserves
    [where base = "[[\<lparr>red = 230, green = 170, blue = 50, alpha = 9\<rparr>,
                     \<lparr>red = 22, green = 187, blue = 0, alpha = 0\<rparr>]]"
       and m = "[[255, 0]]" and orig = None and resize = "\<lambda>img s. img"
       and tex = "[[\<lparr>red = 255, green = 0, blue = 0, alpha = 255\<rparr>,
                    \<lparr>red = 255, green = 0, blue = 0, alpha = 255\<rparr>]]"]
    ss val
  show ?thesis
    by simp
qed

text \<open>
  The shaded colour is truncated from the \<^verbatim>\<open>float32\<close> product: with the shading
  0.59999996 (the \<^verbatim>\<open>float32\<close> below 0.6) the texture value 5 becomes 2.
\<close>

lemma shade_pixel_rounded:
  "red (shade_pixel p \<lparr>red = 5, green = 0, blue = 0, alpha = 255\<rparr> (10066329 / 16777216)) = 2"
  by (simp add: shade_pixel_def) code_simp

section \<open>Frame pipeline: properties\<close>

lemma yellow_not_black: "is_yellow p \<Longrightarrow> \<not> is_black p"
  by (simp add: is_yellow_def is_black_def word_less_nat_alt)

lemma same_shape_extract_black_lines: "same_shape img (extract_black_lines frame) = same_shape img frame"
  by (simp add: extract_black_lines_def same_shape_map_right)

lemma process_frame_composite_None:
  "process_frame_composite resize frame None =
     overlay_black_lines (remove_green_screen frame 100 False) (extract_black_lines frame)"
  by (simp add: process_frame_composite_def)

text \<open>
  C5. Without a texture \<^verbatim>\<open>process_frame\<close> runs neither the texture
  compositing nor the aggressive chroma-key pass: the image it resizes is the outline
  overlay applied to the standard background-removed frame. In that image every pixel
  that is not an outline pixel (red, green and blue all below 140) has the colour
  channels of the source, in particular every pixel of the fill colour (every pixel
  the fill classifier marks); an outline pixel has the colour (0, 0, 0).
\<close>

theorem process_frame_no_texture:
  "process_frame_composite resize frame None =
     overlay_black_lines (remove_green_screen frame 100 False) (extract_black_lines frame)
   \<and> (\<exists>out. process_frame_composite resize frame None = Inr out
         \<and> process_frame resize frame None = Inr (resize out (128, 128))
         \<and> shape out = shape frame
         \<and> (\<forall>y<length frame. \<forall>x<length (frame ! y).
               rgb (out ! y ! x) = (if is_black (frame ! y ! x) then (0, 0, 0) else rgb (frame ! y ! x))
               \<and> (is_yellow (frame ! y ! x) \<longrightarrow> rgb (out ! y ! x) = rgb (frame ! y ! x))
               \<and> alpha (out ! y ! x) =
                   (if is_background_standard (frame ! y ! x) then 0 else alpha (frame ! y ! x))))"
proof -
  define black :: "pixel \<Rightarrow> pixel" where "black = (\<lambda>p. p\<lparr>red := 0, green := 0, blue := 0\<rparr>)"
  define rg where "rg = remove_green_screen frame 100 False"
  define lines where "lines = extract_black_lines frame"
  define out where "out = assign_where black rg (mask_gt128 lines)"
  have rgf: "shape rg = shape frame"
    unfolding rg_def by (rule shape_remove_green_screen)
  then have rl: "same_shape rg lines"
    unfolding lines_def same_shape_extract_black_lines by (simp add: same_shape_def)
  then have rm: "same_shape rg (mask_gt128 lines)"
    by (simp add: same_shape_mask_gt128)
  have comp: "process_frame_composite resize frame None = Inr out"
    using rl by (simp add: process_frame_composite_None overlay_black_lines_eq out_def black_def
        rg_def lines_def)
  then have full: "process_frame resize frame None = Inr (resize out (128, 128))"
    by (simp add: process_frame_def)
  from rm have "shape out = shape rg"
    unfolding out_def by (rule shape_assign_where)
  with rgf have sh: "shape out = shape frame"
    by simp
  have px: "rgb (out ! y ! x) = (if is_black (frame ! y ! x) then (0, 0, 0) else rgb (frame ! y ! x))
      \<and> (is_yellow (frame ! y ! x) \<longrightarrow> rgb (out ! y ! x) = rgb (frame ! y ! x))
      \<and> alpha (out ! y ! x) =
          (if is_background_standard (frame ! y ! x) then 0 else alpha (frame ! y ! x))"
    if y: "y < length frame" and x: "x < length (frame ! y)" for y x
  proof -
    from rgf have fr: "same_shape frame rg"
      by (simp add: same_shape_def)
    from in_range_same_shape [OF fr y x] have yr: "y < length rg" and xr: "x < length (rg ! y)" .
    from in_range_same_shape [OF rl yr xr] have "mask_gt128 lines ! y ! x = (128 < lines ! y ! x)"
      by (rule nth_mask_gt128)
    also have "lines ! y ! x = (if is_black (frame ! y ! x) then 255 else 0)"
      using y x by (simp add: lines_def extract_black_lines_def)
    finally have m: "mask_gt128 lines ! y ! x = is_black (frame ! y ! x)"
      by simp
    have r: "rg ! y ! x = (if is_background_standard (frame ! y ! x)
        then (frame ! y ! x)\<lparr>alpha := 0\<rparr> else frame ! y ! x)"
      using y x by (simp add: rg_def remove_green_screen_map green_standard_100)
    have "out ! y ! x = (if is_black (frame ! y ! x) then black (rg ! y ! x) else rg ! y ! x)"
      unfolding out_def nth_assign_where [OF rm yr xr] by (simp add: m)
    with r yellow_not_black [of "frame ! y ! x"] show ?thesis
      by (simp add: black_def rgb_def)
  qed
  have "\<exists>out. process_frame_composite resize frame None = Inr out
         \<and> process_frame resize frame None = Inr (resize out (128, 128))
         \<and> shape out = shape frame
         \<and> (\<forall>y<length frame. \<forall>x<length (frame ! y).
               rgb (out ! y ! x) = (if is_black (frame ! y ! x) then (0, 0, 0) else rgb (frame ! y ! x))
               \<and> (is_yellow (frame ! y ! x) \<longrightarrow> rgb (out ! y ! x) = rgb (frame ! y ! x))
               \<and> alpha (out ! y ! x) =
                   (if is_background_standard (frame ! y ! x) then 0 else alpha (frame ! y ! x)))"
    using comp full sh px by (intro exI [of _ out]) blast
  with process_frame_composite_None [of resize frame] show ?thesis
    by (rule conjI)
qed

theorem process_frame_no_texture_witness:
  "process_frame_composite keep_size example_frame None =
     overlay_black_lines (remove_green_screen example_frame 100 False)
       (extract_black_lines example_frame)
   \<and> (0::nat) < length example_frame \<and> (0::nat) < length (example_frame ! 0)
   \<and> is_yellow (example_frame ! 0 ! 0)
   \<and> process_frame keep_size example_frame None =
     Inr [[\<lparr>red = 230, green = 170, blue = 50, alpha = 255\<rparr>,
       \<lparr>red = 22, green = 187, blue = 0, alpha = 0\<rparr>,
       \<lparr>red = 22, green = 187, blue = 0, alpha = 0\<rparr>],
      [\<lparr>red = 22, green = 187, blue = 0, alpha = 0\<rparr>,
       \<lparr>red = 0, green = 0, blue = 0, alpha = 255\<rparr>,
       \<lparr>red = 22, green = 187, blue = 0, alpha = 0\<rparr>],
      [\<lparr>red = 22, green = 187, blue = 0, alpha = 0\<rparr>,
       \<lparr>red = 22, green = 187, blue = 0, alpha = 0\<rparr>,
       \<lparr>red = 22, green = 187, blue = 0, alpha = 0\<rparr>]]"
proof -
  have "process_frame keep_size example_frame None =
     Inr [[\<lparr>red = 230, green = 170, blue = 50, alpha = 255\<rparr>,
       \<lparr>red = 22, green = 187, blue = 0, alpha = 0\<rparr>,
       \<lparr>red = 22, green = 187, blue = 0, alpha = 0\<rparr>],
      [\<lparr>red = 22, green = 187, blue = 0, alpha = 0\<rparr>,
       \<lparr>red = 0, green = 0, blue = 0, alpha = 255\<rparr>,
       \<lparr>red = 22, green = 187, blue = 0, alpha = 0\<rparr>],
      [\<lparr>red = 22, green = 187, blue = 0, alpha = 0\<rparr>,
       \<lparr>red = 22, green = 187, blue = 0, alpha = 0\<rparr>,
       \<lparr>red = 22, green = 187, blue = 0, alpha = 0\<rparr>]]"
    by code_simp
  moreover have "is_yellow (example_frame ! 0 ! 0)"
    by code_simp
  moreover have "(0::nat) < length example_frame \<and> (0::nat) < length (example_frame ! 0)"
    by (simp add: example_frame_def)
  ultimately show ?thesis
    using process_frame_no_texture [of keep_size example_frame] by simp
qed

end
